theory Spec2Isabelle
  imports Main
begin

section \<open>Python values, exceptions and patterns\<close>

text \<open>
  The matcher functions of \<^verbatim>\<open>pegger.py\<close> build their results from Python strings and
  (nested) Python lists: \<^verbatim>\<open>[name, value]\<close>, \<^verbatim>\<open>[]\<close>, and lists of such results.
  Truthiness and indexing follow Python: the empty string and the empty list are falsy,
  indexing a string gives a one-character string, and an index out of range raises
  \<^verbatim>\<open>IndexError\<close>.
\<close>

datatype pyval = Str string | PList "pyval list"

datatype error = NoPatternFound | UnknownMatcherType | IndexError

fun truthy :: "pyval \<Rightarrow> bool" where
  "truthy (Str s) = (s \<noteq> [])"
| "truthy (PList xs) = (xs \<noteq> [])"

fun py_index :: "pyval \<Rightarrow> nat \<Rightarrow> error + pyval" where
  "py_index (Str s) i = (if i < length s then Inr (Str [s ! i]) else Inl IndexError)"
| "py_index (PList xs) i = (if i < length xs then Inr (xs ! i) else Inl IndexError)"

text \<open>
  A pattern is a Python value, dispatched on by its type: a \<^verbatim>\<open>str\<close> (\<open>Literal\<close>), a
  \<^verbatim>\<open>tuple\<close>, an instance of one of the matcher classes, or a callable (a function or
  lambda with its \<^verbatim>\<open>__name__\<close>, which returns a pattern when called). Callables are
  what makes recursive grammars possible, so a callable is a reference \<open>Callable name i\<close>
  into a table \<open>defs\<close> of the patterns the callables return. \<open>Unregistered\<close> stands for
  a value of any type that is not a key of \<^verbatim>\<open>matchers\<close>.
\<close>

datatype pattern =
    Literal string
  | Tuple "pattern list"
  | Some_m string
  | Words string
  | Ignore pattern
  | OneOf "pattern list"
  | Many "pattern list"
  | Not_m string
  | Optional pattern
  | Indented pattern
  | Callable string nat
  | Unregistered

type_synonym rules = "nat \<Rightarrow> pattern"

text \<open>
  A call either returns a value, raises an exception (\<open>Inl\<close>), or does not return at
  all (\<open>None\<close>): the recursion through callables and the \<^verbatim>\<open>while\<close> loop of
  \<^verbatim>\<open>match_many\<close> need not terminate.
\<close>

type_synonym 'a outcome = "(error + 'a) option"

type_synonym parser = "string \<Rightarrow> pattern \<Rightarrow> (pyval \<times> string) outcome"

abbreviation newline :: char where
  "newline \<equiv> CHR 0x0A"

definition startswith :: "string \<Rightarrow> string \<Rightarrow> bool" where
  "startswith s p \<longleftrightarrow> take (length p) s = p"

text \<open>Class attribute \<^verbatim>\<open>Words.letters\<close> and \<^verbatim>\<open>Words.__init__\<close>.\<close>

definition default_letters :: string where
  "default_letters = ''ABCDEFGHIJKLMNOPQRSTUVWXYZ'' @ ''abcdefghijklmnopqrstuvwxyz'' @ '' .,''"

definition Words_init :: "string option \<Rightarrow> pattern" where
  "Words_init letters =
     (case letters of
        None \<Rightarrow> Words default_letters
      | Some l \<Rightarrow> if l \<noteq> [] then Words l else Words default_letters)"

section \<open>The matchers\<close>

text \<open>
  Every matcher takes \<open>(text, pattern, name)\<close> as in the source. The matchers that call
  \<^verbatim>\<open>do_parse\<close> on sub-patterns take that function as their first argument \<open>rec\<close>.
  A Python list of one-character strings joined by \<^verbatim>\<open>"".join\<close> is a \<open>string\<close>.
\<close>

subsection \<open>\<^verbatim>\<open>match_some\<close>, \<^verbatim>\<open>match_words\<close>, \<^verbatim>\<open>match_text\<close>\<close>

fun some_loop :: "string \<Rightarrow> string \<Rightarrow> string \<Rightarrow> string \<times> string" where
  "some_loop pat [] match = (match, [])"
| "some_loop pat (char # rest) match =
     (if pat = [char] then some_loop pat rest (match @ [char]) else (match, char # rest))"

definition match_some :: "string \<Rightarrow> string \<Rightarrow> string \<Rightarrow> error + pyval \<times> string" where
  "match_some text pat name =
     (case some_loop pat text [] of (match, rest) \<Rightarrow>
        if match = [] then Inl NoPatternFound
        else Inr (PList [Str name, Str match], rest))"

fun words_loop :: "string \<Rightarrow> string \<Rightarrow> string \<Rightarrow> string \<times> string" where
  "words_loop letters [] match = (match, [])"
| "words_loop letters (char # rest) match =
     (if char \<in> set letters then words_loop letters rest (match @ [char])
      else (match, char # rest))"

definition match_words :: "string \<Rightarrow> string \<Rightarrow> string \<Rightarrow> error + pyval \<times> string" where
  "match_words text letters name =
     (case words_loop letters text [] of (match, rest) \<Rightarrow>
        if match = [] then Inl NoPatternFound
        else Inr (PList [Str name, Str match], rest))"

definition match_text :: "string \<Rightarrow> string \<Rightarrow> string \<Rightarrow> error + pyval \<times> string" where
  "match_text text pat name =
     (if startswith text pat then Inr (PList [Str name, Str pat], drop (length pat) text)
      else Inl NoPatternFound)"

subsection \<open>\<^verbatim>\<open>match_tuple\<close>\<close>

primrec tuple_loop ::
  "parser \<Rightarrow> pattern list \<Rightarrow> pyval list \<Rightarrow> string \<Rightarrow> (pyval list \<times> string) outcome" where
  "tuple_loop rec [] result rest = Some (Inr (result, rest))"
| "tuple_loop rec (sub_pattern # ps) result rest =
     (case rec rest sub_pattern of
        None \<Rightarrow> None
      | Some (Inl e) \<Rightarrow> Some (Inl e)
      | Some (Inr (match, rest')) \<Rightarrow>
          tuple_loop rec ps (if truthy match then result @ [match] else result) rest')"

text \<open>
  The lines after the loop: \<^verbatim>\<open>if len(result) == 1: result = result[0]\<close>, then
  \<^verbatim>\<open>if not result[0]: result = result[1]\<close>, then \<^verbatim>\<open>result = [name, result]\<close>.
\<close>

definition tuple_finish :: "string \<Rightarrow> pyval list \<Rightarrow> string \<Rightarrow> error + pyval \<times> string" where
  "tuple_finish name result rest =
     (let r = (if length result = 1 then result ! 0 else PList result) in
      case py_index r 0 of
        Inl e \<Rightarrow> Inl e
      | Inr first \<Rightarrow>
          if \<not> truthy first then
            (case py_index r 1 of
               Inl e \<Rightarrow> Inl e
             | Inr second \<Rightarrow> Inr (PList [Str name, second], rest))
          else Inr (PList [Str name, r], rest))"

definition match_tuple :: "parser \<Rightarrow> string \<Rightarrow> pattern list \<Rightarrow> string \<Rightarrow> (pyval \<times> string) outcome" where
  "match_tuple rec text ps name =
     (case tuple_loop rec ps [] text of
        None \<Rightarrow> None
      | Some (Inl e) \<Rightarrow> Some (Inl e)
      | Some (Inr (result, rest)) \<Rightarrow> Some (tuple_finish name result rest))"

subsection \<open>\<^verbatim>\<open>match_ignore\<close>\<close>

definition match_ignore :: "parser \<Rightarrow> string \<Rightarrow> pattern \<Rightarrow> string \<Rightarrow> (pyval \<times> string) outcome" where
  "match_ignore rec text p name =
     (case rec text p of
        None \<Rightarrow> None
      | Some (Inl NoPatternFound) \<Rightarrow> Some (Inl NoPatternFound)
      | Some (Inl e) \<Rightarrow> Some (Inl e)
      | Some (Inr (match, rest)) \<Rightarrow> Some (Inr (PList [], rest)))"

subsection \<open>\<^verbatim>\<open>match_one_of\<close>\<close>

text \<open>
  Inside \<^verbatim>\<open>if match:\<close> the source tests \<^verbatim>\<open>(not match) or (match[0] == "<lambda>")\<close>
  and then replaces \<^verbatim>\<open>match\<close> by \<^verbatim>\<open>match[1]\<close>.
\<close>

definition one_of_unwrap :: "pyval \<Rightarrow> error + pyval" where
  "one_of_unwrap match =
     (if \<not> truthy match then py_index match 1
      else case py_index match 0 of
             Inl e \<Rightarrow> Inl e
           | Inr first \<Rightarrow> if first = Str ''<lambda>'' then py_index match 1 else Inr match)"

primrec one_of_loop :: "parser \<Rightarrow> string \<Rightarrow> pattern list \<Rightarrow> (pyval \<times> string) outcome" where
  "one_of_loop rec text [] = Some (Inl NoPatternFound)"
| "one_of_loop rec text (sub_pattern # ps) =
     (case rec text sub_pattern of
        None \<Rightarrow> None
      | Some (Inl NoPatternFound) \<Rightarrow> one_of_loop rec text ps
      | Some (Inl e) \<Rightarrow> Some (Inl e)
      | Some (Inr (match, rest)) \<Rightarrow>
          if truthy match then
            (case one_of_unwrap match of
               Inl e \<Rightarrow> Some (Inl e)
             | Inr match' \<Rightarrow> Some (Inr (match', rest)))
          else one_of_loop rec text ps)"

definition match_one_of :: "parser \<Rightarrow> string \<Rightarrow> pattern list \<Rightarrow> string \<Rightarrow> (pyval \<times> string) outcome" where
  "match_one_of rec text options name = one_of_loop rec text options"

subsection \<open>\<^verbatim>\<open>match_many\<close>\<close>

text \<open>\<^verbatim>\<open>if (not match[0]) or (match[0] == "<lambda>"): match = match[1]\<close>\<close>

definition many_unwrap :: "pyval \<Rightarrow> error + pyval" where
  "many_unwrap match =
     (case py_index match 0 of
        Inl e \<Rightarrow> Inl e
      | Inr first \<Rightarrow>
          if \<not> truthy first \<or> first = Str ''<lambda>'' then py_index match 1 else Inr match)"

text \<open>
  The \<^verbatim>\<open>for\<close> loop over the options, on the state \<open>(result, rest, match_made)\<close>. The
  assignment \<^verbatim>\<open>match, rest = do_parse(rest, sub_pattern)\<close> updates \<open>rest\<close> whenever the
  call returns, and there is no \<^verbatim>\<open>break\<close> after an appended match.
\<close>

primrec many_for ::
  "parser \<Rightarrow> pattern list \<Rightarrow> pyval list \<Rightarrow> string \<Rightarrow> bool \<Rightarrow> (pyval list \<times> string \<times> bool) outcome"
where
  "many_for rec [] result rest match_made = Some (Inr (result, rest, match_made))"
| "many_for rec (sub_pattern # ps) result rest match_made =
     (case rec rest sub_pattern of
        None \<Rightarrow> None
      | Some (Inl NoPatternFound) \<Rightarrow> many_for rec ps result rest match_made
      | Some (Inl e) \<Rightarrow> Some (Inl e)
      | Some (Inr (match, rest')) \<Rightarrow>
          if truthy match then
            (case many_unwrap match of
               Inl e \<Rightarrow> Some (Inl e)
             | Inr match' \<Rightarrow> many_for rec ps (result @ [match']) rest' True)
          else many_for rec ps result rest' match_made)"

text \<open>
  The \<^verbatim>\<open>while rest:\<close> loop. It may run forever, so it counts its iterations down
  from a bound and gives \<open>None\<close> when the bound is used up.
\<close>

primrec many_while ::
  "nat \<Rightarrow> parser \<Rightarrow> pattern list \<Rightarrow> pyval list \<Rightarrow> string \<Rightarrow> (pyval list \<times> string) outcome"
where
  "many_while 0 rec options result rest = None"
| "many_while (Suc k) rec options result rest =
     (if rest = [] then Some (Inr (result, rest))
      else case many_for rec options result rest False of
             None \<Rightarrow> None
           | Some (Inl e) \<Rightarrow> Some (Inl e)
           | Some (Inr (result', rest', match_made)) \<Rightarrow>
               if \<not> match_made then Some (Inr (result', rest'))
               else many_while k rec options result' rest')"

definition many_finish :: "string \<Rightarrow> pyval list \<Rightarrow> string \<Rightarrow> error + pyval \<times> string" where
  "many_finish name result rest =
     (if result = [] then Inl NoPatternFound
      else let r = (if length result = 1 then result ! 0 else PList result) in
           if name \<noteq> [] then Inr (PList [Str name, r], rest) else Inr (r, rest))"

definition match_many ::
  "nat \<Rightarrow> parser \<Rightarrow> string \<Rightarrow> pattern list \<Rightarrow> string \<Rightarrow> (pyval \<times> string) outcome" where
  "match_many k rec text options name =
     (case many_while k rec options [] text of
        None \<Rightarrow> None
      | Some (Inl e) \<Rightarrow> Some (Inl e)
      | Some (Inr (result, rest)) \<Rightarrow> Some (many_finish name result rest))"

subsection \<open>\<^verbatim>\<open>match_not\<close>\<close>

fun not_loop :: "string \<Rightarrow> string \<Rightarrow> string \<Rightarrow> string \<times> string" where
  "not_loop pat [] match = (match, [])"
| "not_loop pat (c # cs) match =
     (if startswith (c # cs) pat then (match, c # cs) else not_loop pat cs (match @ [c]))"

definition match_not :: "string \<Rightarrow> string \<Rightarrow> string \<Rightarrow> error + pyval \<times> string" where
  "match_not text pat name =
     (case not_loop pat text [] of (match, rest) \<Rightarrow>
        if match = [] then Inl NoPatternFound
        else Inr (PList [Str name, Str match], rest))"

subsection \<open>\<^verbatim>\<open>match_optional\<close>\<close>

definition match_optional :: "parser \<Rightarrow> string \<Rightarrow> pattern \<Rightarrow> string \<Rightarrow> (pyval \<times> string) outcome" where
  "match_optional rec text p name =
     (case rec text p of
        Some (Inl NoPatternFound) \<Rightarrow> Some (Inr (PList [], text))
      | r \<Rightarrow> r)"

subsection \<open>\<^verbatim>\<open>match_indented\<close>\<close>

text \<open>\<^verbatim>\<open>text.split("\n")\<close> and \<^verbatim>\<open>"\n".join(lines)\<close>.\<close>

fun split_lines :: "string \<Rightarrow> string list" where
  "split_lines [] = [[]]"
| "split_lines (c # cs) =
     (if c = newline then [] # split_lines cs
      else case split_lines cs of
             [] \<Rightarrow> [[c]]
           | l # ls \<Rightarrow> (c # l) # ls)"

fun join_lines :: "string list \<Rightarrow> string" where
  "join_lines [] = []"
| "join_lines [l] = l"
| "join_lines (l # ls) = l @ [newline] @ join_lines ls"

fun indent_loop :: "string \<Rightarrow> string \<Rightarrow> string" where
  "indent_loop [] indent = indent"
| "indent_loop (char # cs) indent =
     (if char = CHR '' '' then indent_loop cs (indent @ [char]) else indent)"

text \<open>
  The loop over \<open>lines\<close>, on the state \<open>(other_lines, indented_lines)\<close>;
  \<^verbatim>\<open>other_lines.pop(0)\<close> raises \<^verbatim>\<open>IndexError\<close> on an empty list.
\<close>

fun lines_loop ::
  "string \<Rightarrow> string list \<Rightarrow> string list \<Rightarrow> string list \<Rightarrow> error + string list \<times> string list" where
  "lines_loop indent [] other_lines indented_lines = Inr (other_lines, indented_lines)"
| "lines_loop indent (line # ls) other_lines indented_lines =
     (if startswith line indent then
        (case other_lines of
           [] \<Rightarrow> Inl IndexError
         | popped # other_lines' \<Rightarrow>
             lines_loop indent ls other_lines'
               (indented_lines @ [drop (length indent) popped]))
      else Inr (other_lines, indented_lines))"

definition match_indented :: "parser \<Rightarrow> string \<Rightarrow> pattern \<Rightarrow> string \<Rightarrow> (pyval \<times> string) outcome" where
  "match_indented rec text0 p name =
     (if startswith text0 [newline] then
        (let text = drop 1 text0;
             indent = indent_loop text []
         in if indent = [] then Some (Inl NoPatternFound)
            else
              (let lines = split_lines text in
               case lines_loop indent lines lines [] of
                 Inl e \<Rightarrow> Some (Inl e)
               | Inr (other_lines, indented_lines) \<Rightarrow>
                   (let indented_text = [newline] @ join_lines indented_lines;
                        other_rest = join_lines other_lines
                    in case rec indented_text p of
                         None \<Rightarrow> None
                       | Some (Inl NoPatternFound) \<Rightarrow> Some (Inl NoPatternFound)
                       | Some (Inl e) \<Rightarrow> Some (Inl e)
                       | Some (Inr (indented_match, indented_rest)) \<Rightarrow>
                           Some (Inr (indented_match,
                                      indented_rest @ [newline] @ other_rest)))))
      else Some (Inl NoPatternFound))"

section \<open>Dispatch: \<^verbatim>\<open>get_pattern_info\<close>, \<^verbatim>\<open>do_parse\<close>, \<^verbatim>\<open>parse_string\<close>\<close>

text \<open>
  \<^verbatim>\<open>get_pattern_info\<close> calls a callable once and takes its \<^verbatim>\<open>__name__\<close> as the name
  (\<^verbatim>\<open>"<lambda>"\<close> becomes \<^verbatim>\<open>""\<close>). The type of the resulting pattern is the
  constructor of the returned \<open>pattern\<close>.
\<close>

fun get_pattern_info :: "rules \<Rightarrow> pattern \<Rightarrow> pattern \<times> string" where
  "get_pattern_info defs (Callable pattern_name i) =
     (defs i, if pattern_name = ''<lambda>'' then [] else pattern_name)"
| "get_pattern_info defs p = (p, [])"

text \<open>
  The table \<^verbatim>\<open>matchers\<close>, indexed by the type of the pattern, applied to
  \<open>(text, pattern, pattern_name)\<close>. A type that is not a key (a callable returned by a
  callable, or any other value) raises \<^verbatim>\<open>KeyError\<close>, which \<^verbatim>\<open>do_parse\<close> turns into
  \<^verbatim>\<open>UnknownMatcherType\<close>. The argument \<open>k\<close> bounds the iterations of the
  \<^verbatim>\<open>while\<close> loop of \<^verbatim>\<open>match_many\<close>.
\<close>

definition matchers ::
  "nat \<Rightarrow> parser \<Rightarrow> string \<Rightarrow> pattern \<Rightarrow> string \<Rightarrow> (pyval \<times> string) outcome" where
  "matchers k rec text pat pattern_name =
     (case pat of
        Literal s \<Rightarrow> Some (match_text text s pattern_name)
      | Tuple ps \<Rightarrow> match_tuple rec text ps pattern_name
      | Some_m c \<Rightarrow> Some (match_some text c pattern_name)
      | Words letters \<Rightarrow> Some (match_words text letters pattern_name)
      | Ignore q \<Rightarrow> match_ignore rec text q pattern_name
      | OneOf options \<Rightarrow> match_one_of rec text options pattern_name
      | Many options \<Rightarrow> match_many k rec text options pattern_name
      | Not_m s \<Rightarrow> Some (match_not text s pattern_name)
      | Optional q \<Rightarrow> match_optional rec text q pattern_name
      | Indented q \<Rightarrow> match_indented rec text q pattern_name
      | Callable nm i \<Rightarrow> Some (Inl UnknownMatcherType)
      | Unregistered \<Rightarrow> Some (Inl UnknownMatcherType))"

text \<open>
  The first argument of \<open>do_parse\<close> bounds the depth of the nested calls of
  \<^verbatim>\<open>do_parse\<close>; \<open>None\<close> says that the bound was too small.
\<close>

primrec do_parse :: "nat \<Rightarrow> rules \<Rightarrow> string \<Rightarrow> pattern \<Rightarrow> (pyval \<times> string) outcome" where
  "do_parse 0 defs text p = None"
| "do_parse (Suc n) defs text p =
     (case get_pattern_info defs p of
        (pat, pattern_name) \<Rightarrow> matchers n (do_parse n defs) text pat pattern_name)"

definition parse_string :: "nat \<Rightarrow> rules \<Rightarrow> string \<Rightarrow> pattern \<Rightarrow> pyval outcome" where
  "parse_string n defs text p =
     (case do_parse n defs text p of
        None \<Rightarrow> None
      | Some (Inl e) \<Rightarrow> Some (Inl e)
      | Some (Inr (match, rest)) \<Rightarrow> Some (Inr match))"

section \<open>Notions used to state the properties\<close>

text \<open>
  An option that \<^verbatim>\<open>match_one_of\<close> passes over: the call raised \<^verbatim>\<open>NoPatternFound\<close>,
  or it returned a falsy match (\<^verbatim>\<open>[]\<close> or \<^verbatim>\<open>""\<close>).
\<close>

definition passed_over :: "(pyval \<times> string) outcome \<Rightarrow> bool" where
  "passed_over r =
     (case r of
        None \<Rightarrow> False
      | Some (Inl e) \<Rightarrow> e = NoPatternFound
      | Some (Inr (match, rest)) \<Rightarrow> \<not> truthy match)"










section \<open>Basic facts\<close>

lemma startswith_Nil [simp]: "startswith s []"
  by (simp add: startswith_def)

section \<open>\<^verbatim>\<open>match_not\<close>\<close>

lemma not_loop_acc:
  "not_loop pat text acc = (acc @ fst (not_loop pat text []), snd (not_loop pat text []))"
proof (induction "text" arbitrary: acc)
  case Nil
  show ?case by simp
next
  case (Cons c cs)
  show ?case
    using Cons [of "acc @ [c]"] Cons [of "[c]"] by simp
qed

lemma not_loop_sound:
  "not_loop pat text [] = (m, rest) \<Longrightarrow>
     text = m @ rest \<and> (rest = [] \<or> startswith rest pat) \<and>
     (\<forall>i<length m. \<not> startswith (drop i text) pat)"
proof (induction "text" arbitrary: m rest)
  case Nil
  then show ?case by simp
next
  case (Cons c cs)
  show ?case
  proof (cases "startswith (c # cs) pat")
    case True
    with Cons.prems show ?thesis by auto
  next
    case False
    obtain m' rest' where loop: "not_loop pat cs [] = (m', rest')"
      by (cases "not_loop pat cs []")
    from False Cons.prems have "not_loop pat cs [c] = (m, rest)" by simp
    with loop not_loop_acc [of pat cs "[c]"] have m: "m = c # m'" and r: "rest = rest'"
      by simp_all
    have ih: "cs = m' @ rest'" "rest' = [] \<or> startswith rest' pat"
      "\<forall>i<length m'. \<not> startswith (drop i cs) pat"
      using Cons.IH [OF loop] by blast+
    have "\<not> startswith (drop i (c # cs)) pat" if "i < length m" for i
    proof (cases i)
      case 0
      with False show ?thesis by simp
    next
      case (Suc j)
      with that m ih(3) show ?thesis by simp
    qed
    with m r ih show ?thesis by simp
  qed
qed

lemma not_loop_complete:
  "text = m @ rest \<Longrightarrow> rest = [] \<or> startswith rest pat \<Longrightarrow>
   \<forall>i<length m. \<not> startswith (drop i text) pat \<Longrightarrow> not_loop pat text [] = (m, rest)"
proof (induction m arbitrary: "text")
  case Nil
  then show ?case by (cases rest) auto
next
  case (Cons a m)
  from Cons.prems(3) have first: "\<not> startswith text pat" by fastforce
  have rest: "\<forall>i<length m. \<not> startswith (drop i (m @ rest)) pat"
  proof (intro allI impI)
    fix i assume "i < length m"
    with Cons.prems(3) have "\<not> startswith (drop (Suc i) text) pat" by simp
    with Cons.prems(1) show "\<not> startswith (drop i (m @ rest)) pat" by simp
  qed
  from Cons.IH [OF refl Cons.prems(2) rest] have "not_loop pat (m @ rest) [] = (m, rest)" .
  with not_loop_acc [of pat "m @ rest" "[a]"] first Cons.prems(1) show ?case by simp
qed

text \<open>
  Claim C7. \<^verbatim>\<open>match_not\<close> consumes characters one at a time from the front of the
  text until the text is exhausted or the remaining text starts with the forbidden
  string, which is never consumed: a match \<open>[name, m]\<close> with remainder \<open>rest\<close> is
  returned exactly when \<open>m\<close> is non-empty, \<open>text = m @ rest\<close>, \<open>rest\<close> is empty or
  starts with the forbidden string, and no suffix of the text that begins inside \<open>m\<close>
  starts with it. Zero consumed characters (the text is empty or starts with the
  forbidden string) is \<^verbatim>\<open>NoPatternFound\<close>, and nothing else can happen.
\<close>

theorem match_not_consumes_until_forbidden:
  assumes "get_pattern_info defs p = (Not_m pat, name)"
  shows "(do_parse (Suc n) defs text p = Some (Inr (r, rest)) \<longleftrightarrow>
            (\<exists>m. r = PList [Str name, Str m] \<and> m \<noteq> [] \<and> text = m @ rest \<and>
                 (rest = [] \<or> startswith rest pat) \<and>
                 (\<forall>i<length m. \<not> startswith (drop i text) pat)))
       \<and> (do_parse (Suc n) defs text p = Some (Inl NoPatternFound) \<longleftrightarrow>
            text = [] \<or> startswith text pat)
       \<and> do_parse (Suc n) defs text p \<noteq> None
       \<and> do_parse (Suc n) defs text p \<noteq> Some (Inl UnknownMatcherType)
       \<and> do_parse (Suc n) defs text p \<noteq> Some (Inl IndexError)"
proof -
  obtain m0 rest0 where loop: "not_loop pat text [] = (m0, rest0)"
    by (cases "not_loop pat text []")
  have run: "do_parse (Suc n) defs text p =
      Some (if m0 = [] then Inl NoPatternFound else Inr (PList [Str name, Str m0], rest0))"
    using assms loop by (simp add: matchers_def match_not_def)
  note snd = not_loop_sound [OF loop]
  have a: "do_parse (Suc n) defs text p = Some (Inr (r, rest)) \<longleftrightarrow>
            (\<exists>m. r = PList [Str name, Str m] \<and> m \<noteq> [] \<and> text = m @ rest \<and>
                 (rest = [] \<or> startswith rest pat) \<and>
                 (\<forall>i<length m. \<not> startswith (drop i text) pat))" (is "?L \<longleftrightarrow> ?R")
  proof
    assume ?L
    with run have "m0 \<noteq> []" "r = PList [Str name, Str m0]" "rest = rest0"
      by (auto split: if_splits)
    with snd show ?R by blast
  next
    assume ?R
    then obtain m where m: "r = PList [Str name, Str m]" "m \<noteq> []" "text = m @ rest"
      "rest = [] \<or> startswith rest pat" "\<forall>i<length m. \<not> startswith (drop i text) pat"
      by blast
    from not_loop_complete [OF m(3) m(4) m(5)] loop have "m0 = m" "rest0 = rest" by simp_all
    with run m show ?L by simp
  qed
  have b: "do_parse (Suc n) defs text p = Some (Inl NoPatternFound) \<longleftrightarrow>
            text = [] \<or> startswith text pat"
  proof -
    have "m0 = [] \<longleftrightarrow> text = [] \<or> startswith text pat"
    proof
      assume "m0 = []"
      with snd show "text = [] \<or> startswith text pat" by auto
    next
      assume "text = [] \<or> startswith text pat"
      then have "not_loop pat text [] = ([], text)" by (cases "text") auto
      with loop show "m0 = []" by simp
    qed
    with run show ?thesis by simp
  qed
  have c: "do_parse (Suc n) defs text p \<noteq> None
       \<and> do_parse (Suc n) defs text p \<noteq> Some (Inl UnknownMatcherType)
       \<and> do_parse (Suc n) defs text p \<noteq> Some (Inl IndexError)"
    using run by simp
  from a b c show ?thesis by blast
qed

text \<open>
  The two examples of the claim: \<^verbatim>\<open>Not("STOP")\<close> on \<^verbatim>\<open>"abcSTOPdef"\<close> and on
  \<^verbatim>\<open>"STOPxyz"\<close>.
\<close>

theorem match_not_witness:
  "do_parse (Suc 0) (\<lambda>i. Unregistered) ''abcSTOPdef'' (Not_m ''STOP'')
     = Some (Inr (PList [Str [], Str ''abc''], ''STOPdef''))
   \<and> do_parse (Suc 0) (\<lambda>i. Unregistered) ''STOPxyz'' (Not_m ''STOP'') = Some (Inl NoPatternFound)"
proof -
  have info: "get_pattern_info (\<lambda>i. Unregistered) (Not_m ''STOP'') = (Not_m ''STOP'', [])"
    by simp
  note spec = match_not_consumes_until_forbidden [OF info, of 0]
  have "do_parse (Suc 0) (\<lambda>i. Unregistered) ''abcSTOPdef'' (Not_m ''STOP'')
     = Some (Inr (PList [Str [], Str ''abc''], ''STOPdef''))"
    apply (rule iffD2 [OF conjunct1 [OF spec]])
    apply (rule exI [of _ "''abc''"])
    apply (simp add: startswith_def less_Suc_eq)
    done
  moreover have "do_parse (Suc 0) (\<lambda>i. Unregistered) ''STOPxyz'' (Not_m ''STOP'')
     = Some (Inl NoPatternFound)"
    apply (rule iffD2 [OF conjunct1 [OF conjunct2 [OF spec]]])
    apply (simp add: startswith_def)
    done
  ultimately show ?thesis by simp
qed

lemma not_loop_empty_pattern: "not_loop [] s [] = ([], s)"
  by (cases s) simp_all

text \<open>
  Claim C10. With an empty forbidden string \<^verbatim>\<open>rest.startswith("")\<close> holds at once, no
  character is consumed, and \<^verbatim>\<open>match_not\<close> raises \<^verbatim>\<open>NoPatternFound\<close> on every text,
  empty or not, whether the pattern is given directly or through a callable.
\<close>

theorem match_not_empty_pattern:
  "match_not text [] name = Inl NoPatternFound
   \<and> do_parse (Suc n) defs text (Not_m []) = Some (Inl NoPatternFound)
   \<and> do_parse (Suc n) (defs(i := Not_m [])) text (Callable name i) = Some (Inl NoPatternFound)"
  by (simp add: matchers_def match_not_def not_loop_empty_pattern)

theorem match_not_empty_pattern_witness:
  "do_parse (Suc 0) (\<lambda>i. Unregistered) ''abc'' (Not_m []) = Some (Inl NoPatternFound)"
  using match_not_empty_pattern [of "''abc''" "[]" 0 "\<lambda>i. Unregistered" 0] by simp

section \<open>\<^verbatim>\<open>match_optional\<close>\<close>

text \<open>
  Claim C6. If the inner pattern matches, \<^verbatim>\<open>match_optional\<close> returns its match and
  remainder unchanged; if the inner pattern raises \<^verbatim>\<open>NoPatternFound\<close>, it returns the
  empty match \<^verbatim>\<open>[]\<close> and the original text; and it never raises \<^verbatim>\<open>NoPatternFound\<close>
  itself, whatever the bound on the call depth.
\<close>

theorem match_optional_never_fails:
  "(do_parse n defs text p = Some (Inr (m, rest)) \<longrightarrow>
      do_parse (Suc n) defs text (Optional p) = Some (Inr (m, rest)))
   \<and> (do_parse n defs text p = Some (Inl NoPatternFound) \<longrightarrow>
      do_parse (Suc n) defs text (Optional p) = Some (Inr (PList [], text)))
   \<and> do_parse k defs text (Optional p) \<noteq> Some (Inl NoPatternFound)"
proof -
  have "do_parse k defs text (Optional p) \<noteq> Some (Inl NoPatternFound)"
  proof (cases k)
    case 0
    then show ?thesis by simp
  next
    case (Suc j)
    then show ?thesis
      by (simp add: matchers_def match_optional_def split: option.splits sum.splits error.splits)
  qed
  then show ?thesis
    by (simp add: matchers_def match_optional_def)
qed

text \<open>
  The example of the claim: \<^verbatim>\<open>Optional("y")\<close> on \<^verbatim>\<open>"x"\<close> gives \<^verbatim>\<open>[]\<close> and the
  remainder \<^verbatim>\<open>"x"\<close>; on \<^verbatim>\<open>"yx"\<close> the inner match is passed through.
\<close>

theorem match_optional_witness:
  "do_parse (Suc (Suc 0)) (\<lambda>i. Unregistered) ''x'' (Optional (Literal ''y''))
     = Some (Inr (PList [], ''x''))
   \<and> parse_string (Suc (Suc 0)) (\<lambda>i. Unregistered) ''x'' (Optional (Literal ''y''))
     = Some (Inr (PList []))
   \<and> do_parse (Suc (Suc 0)) (\<lambda>i. Unregistered) ''yx'' (Optional (Literal ''y''))
     = Some (Inr (PList [Str [], Str ''y''], ''x''))"
proof -
  have fail: "do_parse (Suc 0) (\<lambda>i. Unregistered) ''x'' (Literal ''y'') = Some (Inl NoPatternFound)"
    by (simp add: matchers_def match_text_def startswith_def)
  have ok: "do_parse (Suc 0) (\<lambda>i. Unregistered) ''yx'' (Literal ''y'')
      = Some (Inr (PList [Str [], Str ''y''], ''x''))"
    by (simp add: matchers_def match_text_def startswith_def)
  note a = match_optional_never_fails [of "Suc 0" "\<lambda>i. Unregistered" "''x''" "Literal ''y''"]
  note b = match_optional_never_fails [of "Suc 0" "\<lambda>i. Unregistered" "''yx''" "Literal ''y''"
      "PList [Str [], Str ''y'']" "''x''"]
  from a fail have 1: "do_parse (Suc (Suc 0)) (\<lambda>i. Unregistered) ''x'' (Optional (Literal ''y''))
     = Some (Inr (PList [], ''x''))" by blast
  from b ok have 2: "do_parse (Suc (Suc 0)) (\<lambda>i. Unregistered) ''yx'' (Optional (Literal ''y''))
     = Some (Inr (PList [Str [], Str ''y''], ''x''))" by blast
  from 1 2 show ?thesis by (simp add: parse_string_def)
qed

section \<open>\<^verbatim>\<open>match_one_of\<close>\<close>

lemma one_of_loop_passed_over:
  "\<forall>q\<in>set ps. passed_over (rec t q) \<Longrightarrow> one_of_loop rec t (ps @ qs) = one_of_loop rec t qs"
  by (induction ps)
     (auto simp add: passed_over_def split: option.splits sum.splits error.splits prod.splits)

lemma one_of_unwrap_error: "one_of_unwrap m = Inl e \<Longrightarrow> e = IndexError"
  by (cases m) (auto simp add: one_of_unwrap_def split: sum.splits if_splits)

lemma one_of_loop_NoPatternFound:
  "one_of_loop rec t ps = Some (Inl NoPatternFound) \<longleftrightarrow> (\<forall>q\<in>set ps. passed_over (rec t q))"
  by (induction ps)
     (auto simp add: passed_over_def dest: one_of_unwrap_error
        split: option.splits sum.splits error.splits prod.splits)

lemma one_of_unwrap_plain:
  "truthy m \<Longrightarrow> py_index m 0 \<noteq> Inr (Str ''<lambda>'') \<Longrightarrow> one_of_unwrap m = Inr m"
  by (cases m) (auto simp add: one_of_unwrap_def split: sum.splits)

text \<open>
  Claim C2, as the code has it. \<^verbatim>\<open>match_one_of\<close> returns the match and remainder of
  the first option in list order whose match is truthy, when every option before it
  was passed over (it raised \<^verbatim>\<open>NoPatternFound\<close> or returned a falsy match such as the
  \<^verbatim>\<open>[]\<close> of \<^verbatim>\<open>Ignore\<close>); the match is returned as it is unless its first component
  is the string \<^verbatim>\<open>"<lambda>"\<close>. It raises \<^verbatim>\<open>NoPatternFound\<close> exactly when every option
  is passed over.
\<close>

theorem match_one_of_first_nonempty:
  "(i < length options \<and> (\<forall>j<i. passed_over (do_parse n defs t (options ! j))) \<and>
      do_parse n defs t (options ! i) = Some (Inr (m, rest)) \<and> truthy m \<longrightarrow>
        do_parse (Suc n) defs t (OneOf options) =
        Some (case one_of_unwrap m of Inl e \<Rightarrow> Inl e | Inr m' \<Rightarrow> Inr (m', rest)) \<and>
        (py_index m 0 \<noteq> Inr (Str ''<lambda>'') \<longrightarrow>
           do_parse (Suc n) defs t (OneOf options) = Some (Inr (m, rest))))
   \<and> (do_parse (Suc n) defs t (OneOf options) = Some (Inl NoPatternFound) \<longleftrightarrow>
        (\<forall>j<length options. passed_over (do_parse n defs t (options ! j))))"
proof -
  have run: "do_parse (Suc n) defs t (OneOf options) = one_of_loop (do_parse n defs) t options"
    by (simp add: matchers_def match_one_of_def)
  have first: "do_parse (Suc n) defs t (OneOf options) =
        Some (case one_of_unwrap m of Inl e \<Rightarrow> Inl e | Inr m' \<Rightarrow> Inr (m', rest))"
    if i: "i < length options"
      and before: "\<forall>j<i. passed_over (do_parse n defs t (options ! j))"
      and hit: "do_parse n defs t (options ! i) = Some (Inr (m, rest))" and m: "truthy m"
  proof -
    have split: "options = take i options @ (options ! i) # drop (Suc i) options"
      using i by (simp add: id_take_nth_drop)
    have "\<forall>q\<in>set (take i options). passed_over (do_parse n defs t q)"
      using before i by (auto simp add: in_set_conv_nth)
    then have "one_of_loop (do_parse n defs) t options =
        one_of_loop (do_parse n defs) t ((options ! i) # drop (Suc i) options)"
      using one_of_loop_passed_over [of "take i options" "do_parse n defs" t
          "(options ! i) # drop (Suc i) options"] split by simp
    also have "\<dots> = Some (case one_of_unwrap m of Inl e \<Rightarrow> Inl e | Inr m' \<Rightarrow> Inr (m', rest))"
      using hit m by (simp split: sum.splits)
    finally show ?thesis using run by simp
  qed
  have none: "do_parse (Suc n) defs t (OneOf options) = Some (Inl NoPatternFound) \<longleftrightarrow>
        (\<forall>j<length options. passed_over (do_parse n defs t (options ! j)))"
    using run by (simp add: one_of_loop_NoPatternFound all_set_conv_all_nth)
  from first none show ?thesis
    by (auto simp add: one_of_unwrap_plain)
qed

text \<open>
  Ordered choice, not longest match: the options \<^verbatim>\<open>"a"\<close>, \<^verbatim>\<open>"ab"\<close> on \<^verbatim>\<open>"ab"\<close>
  consume only \<^verbatim>\<open>"a"\<close>.
\<close>

theorem match_one_of_witness:
  "do_parse (Suc (Suc 0)) (\<lambda>i. Unregistered) ''ab'' (OneOf [Literal ''a'', Literal ''ab''])
     = Some (Inr (PList [Str [], Str ''a''], ''b''))"
proof -
  have hit: "do_parse (Suc 0) (\<lambda>i. Unregistered) ''ab'' ([Literal ''a'', Literal ''ab''] ! 0)
      = Some (Inr (PList [Str [], Str ''a''], ''b''))"
    by (simp add: matchers_def match_text_def startswith_def)
  have pre: "0 < length [Literal ''a'', Literal ''ab''] \<and>
      (\<forall>j<0. passed_over (do_parse (Suc 0) (\<lambda>i. Unregistered) ''ab''
          ([Literal ''a'', Literal ''ab''] ! j))) \<and>
      do_parse (Suc 0) (\<lambda>i. Unregistered) ''ab'' ([Literal ''a'', Literal ''ab''] ! 0)
        = Some (Inr (PList [Str [], Str ''a''], ''b'')) \<and>
      truthy (PList [Str [], Str ''a''])"
    using hit by (simp del: do_parse.simps)
  have plain: "py_index (PList [Str [], Str ''a'']) 0 \<noteq> Inr (Str ''<lambda>'')" by simp
  from match_one_of_first_nonempty [of 0 "[Literal ''a'', Literal ''ab'']" "Suc 0"
      "\<lambda>i. Unregistered" "''ab''" "PList [Str [], Str ''a'']" "''b''"] pre plain
  show ?thesis by blast
qed

text \<open>
  Claim C2 as stated fails: \<^verbatim>\<open>Ignore("a")\<close> succeeds on \<^verbatim>\<open>"a"\<close> with the empty match,
  yet \<^verbatim>\<open>OneOf(Ignore("a"))\<close> raises \<^verbatim>\<open>NoPatternFound\<close> there, and with a second option
  the result is the second option's, tried on the original text.
\<close>

theorem match_one_of_skips_empty_result:
  "do_parse (Suc (Suc 0)) (\<lambda>i. Unregistered) ''a'' (Ignore (Literal ''a'')) = Some (Inr (PList [], []))
   \<and> do_parse (Suc (Suc (Suc 0))) (\<lambda>i. Unregistered) ''a'' (OneOf [Ignore (Literal ''a'')])
       = Some (Inl NoPatternFound)
   \<and> do_parse (Suc (Suc (Suc 0))) (\<lambda>i. Unregistered) ''ab'' (OneOf [Ignore (Literal ''a''), Literal ''ab''])
       = Some (Inr (PList [Str [], Str ''ab''], []))"
  by (simp add: matchers_def match_one_of_def match_ignore_def match_text_def startswith_def
      one_of_unwrap_def)

section \<open>\<^verbatim>\<open>match_tuple\<close>\<close>






text \<open>
  Claim C9 fails on the code: with no truthy match appended, \<^verbatim>\<open>result\<close> is the empty
  list and \<^verbatim>\<open>result[0]\<close> raises \<^verbatim>\<open>IndexError\<close>. This happens for the empty tuple on
  every text, and for a tuple whose only sub-pattern is an \<^verbatim>\<open>Ignore\<close>.
\<close>

theorem match_tuple_empty_result_IndexError:
  "do_parse (Suc n) defs text (Tuple []) = Some (Inl IndexError)
   \<and> do_parse (Suc (Suc (Suc 0))) defs ''a'' (Tuple [Ignore (Literal ''a'')]) = Some (Inl IndexError)"
  by (simp add: matchers_def match_tuple_def tuple_finish_def match_ignore_def match_text_def
      startswith_def)

section \<open>\<^verbatim>\<open>match_indented\<close>\<close>

lemma indent_loop_takeWhile:
  "indent_loop s acc = acc @ takeWhile (\<lambda>c. c = CHR '' '') s"
  by (induction s arbitrary: acc) simp_all

lemma lines_loop_takeWhile:
  "lines_loop indent ls ls acc =
     Inr (dropWhile (\<lambda>l. startswith l indent) ls,
          acc @ map (drop (length indent)) (takeWhile (\<lambda>l. startswith l indent) ls))"
  by (induction ls arbitrary: acc) simp_all

text \<open>
  Claim C4. \<^verbatim>\<open>match_indented\<close> raises \<^verbatim>\<open>NoPatternFound\<close> unless the text starts with
  a newline and the line after it starts with at least one space. Otherwise, with
  \<open>indent\<close> the leading spaces, \<open>block\<close> the maximal leading run of lines that start
  with \<open>indent\<close> and \<open>others\<close> the remaining lines, the inner pattern is matched
  against a newline followed by the lines of \<open>block\<close> without their indentation, joined
  by newlines. When it matches with remainder \<open>inner_rest\<close>, the result is its match
  with the remainder \<open>inner_rest\<close>, a newline, and \<open>others\<close> joined by newlines (their
  indentation untouched); when it raises, so does \<^verbatim>\<open>match_indented\<close>.
\<close>

theorem match_indented_remainder:
  "(\<not> startswith t [newline] \<longrightarrow>
      do_parse (Suc n) defs t (Indented p) = Some (Inl NoPatternFound))
   \<and> (takeWhile (\<lambda>c. c = CHR '' '') body = [] \<longrightarrow>
      do_parse (Suc n) defs (newline # body) (Indented p) = Some (Inl NoPatternFound))
   \<and> (indent = takeWhile (\<lambda>c. c = CHR '' '') body \<and> indent \<noteq> [] \<and>
      block = takeWhile (\<lambda>l. startswith l indent) (split_lines body) \<and>
      others = dropWhile (\<lambda>l. startswith l indent) (split_lines body) \<and>
      do_parse n defs (newline # join_lines (map (drop (length indent)) block)) p
        = Some (Inr (m, inner_rest)) \<longrightarrow>
      do_parse (Suc n) defs (newline # body) (Indented p)
        = Some (Inr (m, inner_rest @ [newline] @ join_lines others)))
   \<and> (indent = takeWhile (\<lambda>c. c = CHR '' '') body \<and> indent \<noteq> [] \<and>
      block = takeWhile (\<lambda>l. startswith l indent) (split_lines body) \<and>
      do_parse n defs (newline # join_lines (map (drop (length indent)) block)) p
        = Some (Inl e) \<longrightarrow>
      do_parse (Suc n) defs (newline # body) (Indented p) = Some (Inl e))"
  by (auto simp add: matchers_def match_indented_def startswith_def indent_loop_takeWhile
      lines_loop_takeWhile Let_def split: error.splits)

text \<open>
  The example of the claim: on the text \<^verbatim>\<open>"\n  foo\n  bar\nbaz"\<close> the dedented
  block is \<^verbatim>\<open>"\nfoo\nbar"\<close>. With an inner pattern that consumes it whole, either the
  literal \<^verbatim>\<open>"\nfoo\nbar"\<close> or the tuple \<^verbatim>\<open>(Ignore("\n"), "foo\nbar")\<close>, the match
  succeeds and the remainder is the newline followed by the trailing line \<^verbatim>\<open>baz\<close>.
\<close>

theorem match_indented_witness:
  "do_parse (Suc (Suc 0)) (\<lambda>i. Unregistered)
     (newline # ''  foo'' @ newline # ''  bar'' @ newline # ''baz'')
     (Indented (Literal (newline # ''foo'' @ newline # ''bar'')))
   = Some (Inr (PList [Str [], Str (newline # ''foo'' @ newline # ''bar'')], newline # ''baz''))
   \<and> do_parse 4 (\<lambda>i. Unregistered)
     (newline # ''  foo'' @ newline # ''  bar'' @ newline # ''baz'')
     (Indented (Tuple [Ignore (Literal [newline]), Literal (''foo'' @ newline # ''bar'')]))
   = Some (Inr (PList [Str [], Str (''foo'' @ newline # ''bar'')], newline # ''baz''))"
proof -
  let ?body = "''  foo'' @ newline # ''  bar'' @ newline # ''baz''"
  let ?inner = "Literal (newline # ''foo'' @ newline # ''bar'')"
  let ?inner2 = "Tuple [Ignore (Literal [newline]), Literal (''foo'' @ newline # ''bar'')]"
  have lines: "split_lines ?body = [''  foo'', ''  bar'', ''baz'']" by simp
  have indent: "''  '' = takeWhile (\<lambda>c. c = CHR '' '') ?body" by simp
  have block: "[''  foo'', ''  bar''] = takeWhile (\<lambda>l. startswith l ''  '') (split_lines ?body)"
    unfolding lines by (simp add: startswith_def)
  have others: "[''baz''] = dropWhile (\<lambda>l. startswith l ''  '') (split_lines ?body)"
    unfolding lines by (simp add: startswith_def)
  have ne: "''  '' \<noteq> []" by simp
  have inner: "do_parse (Suc 0) (\<lambda>i. Unregistered)
      (newline # join_lines (map (drop (length ''  '')) [''  foo'', ''  bar''])) ?inner
      = Some (Inr (PList [Str [], Str (newline # ''foo'' @ newline # ''bar'')], []))"
    by (simp add: matchers_def match_text_def startswith_def)
  from match_indented_remainder [where n = "Suc 0" and defs = "\<lambda>i. Unregistered" and p = ?inner
      and body = ?body and indent = "''  ''" and block = "[''  foo'', ''  bar'']"
      and others = "[''baz'']"
      and m = "PList [Str [], Str (newline # ''foo'' @ newline # ''bar'')]" and inner_rest = "[]"]
    indent ne block others inner
  have "do_parse (Suc (Suc 0)) (\<lambda>i. Unregistered) (newline # ?body) (Indented ?inner)
      = Some (Inr (PList [Str [], Str (newline # ''foo'' @ newline # ''bar'')],
                   [] @ [newline] @ join_lines [''baz'']))"
    by blast
  then have 1: "do_parse (Suc (Suc 0)) (\<lambda>i. Unregistered) (newline # ?body) (Indented ?inner)
      = Some (Inr (PList [Str [], Str (newline # ''foo'' @ newline # ''bar'')], newline # ''baz''))"
    by (simp del: do_parse.simps)
  have inner2: "do_parse 3 (\<lambda>i. Unregistered)
      (newline # join_lines (map (drop (length ''  '')) [''  foo'', ''  bar''])) ?inner2
      = Some (Inr (PList [Str [], Str (''foo'' @ newline # ''bar'')], []))"
    by code_simp
  have four: "(4::nat) = Suc 3" by simp
  from match_indented_remainder [where n = 3 and defs = "\<lambda>i. Unregistered" and p = ?inner2
      and body = ?body and indent = "''  ''" and block = "[''  foo'', ''  bar'']"
      and others = "[''baz'']"
      and m = "PList [Str [], Str (''foo'' @ newline # ''bar'')]" and inner_rest = "[]"]
    indent ne block others inner2
  have "do_parse (Suc 3) (\<lambda>i. Unregistered) (newline # ?body) (Indented ?inner2)
      = Some (Inr (PList [Str [], Str (''foo'' @ newline # ''bar'')],
                   [] @ [newline] @ join_lines [''baz'']))"
    by blast
  then have 2: "do_parse 4 (\<lambda>i. Unregistered) (newline # ?body) (Indented ?inner2)
      = Some (Inr (PList [Str [], Str (''foo'' @ newline # ''bar'')], newline # ''baz''))"
    unfolding four by (simp del: do_parse.simps)
  from 1 2 show ?thesis by blast
qed

section \<open>The bound on the call depth\<close>










section \<open>Remainders\<close>




















subsection \<open>Lengths in \<^verbatim>\<open>match_indented\<close>\<close>











subsection \<open>All matchers\<close>








section \<open>Termination\<close>













section \<open>\<^verbatim>\<open>match_many\<close>\<close>






end
